theory Spec2Isabelle
  imports Complex_Main "HOL-Library.AList" "HOL-Library.Monad_Syntax"
begin

section \<open>Python values used by the wrapper\<close>

text \<open>
  The development embeds \<^verbatim>\<open>wrappers/python/asfm_logger.py\<close>, class
  \<^verbatim>\<open>ASFMLoggerPython\<close>.  A Python \<^verbatim>\<open>str\<close> is a \<^typ>\<open>string\<close>;
  \<^verbatim>\<open>str.upper\<close> and \<^verbatim>\<open>str.lower\<close> change the ASCII letters and leave every
  other character as it is, which is what Python does on ASCII text (the level names of
  the wrapper are ASCII).  A raised exception is a value \<open>Exn m\<close>, where \<open>m\<close> is what
  \<^verbatim>\<open>str(e)\<close> returns.
\<close>

datatype exn = Exn string

fun str_exn :: "exn \<Rightarrow> string" where
  "str_exn (Exn m) = m"

definition lower_letters :: string where
  "lower_letters = ''abcdefghijklmnopqrstuvwxyz''"

definition upper_letters :: string where
  "upper_letters = ''ABCDEFGHIJKLMNOPQRSTUVWXYZ''"

definition upper_char :: "char \<Rightarrow> char" where
  "upper_char c = (case map_of (zip lower_letters upper_letters) c of Some u \<Rightarrow> u | None \<Rightarrow> c)"


definition upper :: "string \<Rightarrow> string" where
  "upper s = map upper_char s"


text \<open>Decimal digits, for \<^verbatim>\<open>strftime\<close>, \<^verbatim>\<open>strptime\<close> and \<^verbatim>\<open>str(len(logs))\<close>.\<close>

definition digit :: "nat \<Rightarrow> char" where
  "digit n = ''0123456789'' ! (n mod 10)"

definition digit_of :: "char \<Rightarrow> nat option" where
  "digit_of c = map_of (zip ''0123456789'' [0, 1, 2, 3, 4, 5, 6, 7, 8, 9]) c"

fun zpad :: "nat \<Rightarrow> nat \<Rightarrow> string" where
  "zpad 0 n = []"
| "zpad (Suc w) n = zpad w (n div 10) @ [digit n]"


fun digits_val :: "string \<Rightarrow> nat \<Rightarrow> nat option" where
  "digits_val [] acc = Some acc"
| "digits_val (c # cs) acc =
     (case digit_of c of None \<Rightarrow> None | Some d \<Rightarrow> digits_val cs (10 * acc + d))"

section \<open>Wall-clock values\<close>

text \<open>
  A \<^verbatim>\<open>datetime\<close> object, as \<^verbatim>\<open>datetime.now()\<close> returns it: a naive local time
  with its seven fields.  \<open>valid_datetime\<close> is the range check of the \<^verbatim>\<open>datetime\<close>
  constructor; every value the clock returns satisfies it.
\<close>

record datetime =
  year :: nat
  month :: nat
  day :: nat
  hour :: nat
  minute :: nat
  second :: nat
  microsecond :: nat

definition is_leap :: "nat \<Rightarrow> bool" where
  "is_leap y = (y mod 4 = 0 \<and> (y mod 100 \<noteq> 0 \<or> y mod 400 = 0))"

definition days_in_month :: "nat \<Rightarrow> nat \<Rightarrow> nat" where
  "days_in_month y m =
     (if m = 2 \<and> is_leap y then 29
      else [0, 31, 28, 31, 30, 31, 30, 31, 31, 30, 31, 30, 31] ! m)"

definition valid_datetime :: "datetime \<Rightarrow> bool" where
  "valid_datetime d =
     (1 \<le> year d \<and> year d \<le> 9999 \<and> 1 \<le> month d \<and> month d \<le> 12 \<and>
      1 \<le> day d \<and> day d \<le> days_in_month (year d) (month d) \<and>
      hour d < 24 \<and> minute d < 60 \<and> second d < 60 \<and> microsecond d < 1000000)"

text \<open>
  \<^verbatim>\<open>d.strftime("%Y-%m-%d %H:%M:%S.%f")\<close>: every field zero-padded to its width
  (the year to four digits, as it has for the years from 1000 on).
\<close>

definition strftime :: "datetime \<Rightarrow> string" where
  "strftime d =
     zpad 4 (year d) @ ''-'' @ zpad 2 (month d) @ ''-'' @ zpad 2 (day d) @ '' '' @
     zpad 2 (hour d) @ '':'' @ zpad 2 (minute d) @ '':'' @ zpad 2 (second d) @ ''.'' @
     zpad 6 (microsecond d)"

text \<open>The slice \<^verbatim>\<open>s[:-3]\<close>: all but the last three characters.\<close>

definition drop_last3 :: "string \<Rightarrow> string" where
  "drop_last3 s = take (length s - 3) s"

text \<open>
  \<^verbatim>\<open>datetime.strptime(s, "%Y-%m-%d %H:%M:%S.%f")\<close> on the fixed-width text that
  \<open>strftime\<close> writes: four digits, two digits for each further field, and one to six
  digits of fraction, which \<^verbatim>\<open>%f\<close> pads with zeros on the right.  Any other text,
  and any field out of range, raises \<^verbatim>\<open>ValueError\<close>.  (Python also accepts
  one-digit months, days, hours, minutes and seconds; the wrapper never stores such a
  text.)
\<close>

definition field :: "nat \<Rightarrow> string \<Rightarrow> (nat \<times> string) option" where
  "field w s =
     (if length s < w then None
      else case digits_val (take w s) 0 of None \<Rightarrow> None | Some n \<Rightarrow> Some (n, drop w s))"

definition expect :: "char \<Rightarrow> string \<Rightarrow> string option" where
  "expect c s = (case s of [] \<Rightarrow> None | x # xs \<Rightarrow> if x = c then Some xs else None)"

definition fraction :: "string \<Rightarrow> nat option" where
  "fraction s =
     (if 1 \<le> length s \<and> length s \<le> 6
      then map_option (\<lambda>n. n * 10 ^ (6 - length s)) (digits_val s 0)
      else None)"

definition parse_fields :: "string \<Rightarrow> datetime option" where
  "parse_fields s = do {
     (y, s1) \<leftarrow> field 4 s;
     s2 \<leftarrow> expect CHR ''-'' s1;
     (mo, s3) \<leftarrow> field 2 s2;
     s4 \<leftarrow> expect CHR ''-'' s3;
     (d, s5) \<leftarrow> field 2 s4;
     s6 \<leftarrow> expect CHR '' '' s5;
     (h, s7) \<leftarrow> field 2 s6;
     s8 \<leftarrow> expect CHR '':'' s7;
     (mi, s9) \<leftarrow> field 2 s8;
     s10 \<leftarrow> expect CHR '':'' s9;
     (sec, s11) \<leftarrow> field 2 s10;
     s12 \<leftarrow> expect CHR ''.'' s11;
     us \<leftarrow> fraction s12;
     Some \<lparr>year = y, month = mo, day = d, hour = h, minute = mi, second = sec,
           microsecond = us\<rparr>
   }"

definition strptime :: "string \<Rightarrow> exn + datetime" where
  "strptime s =
     (case parse_fields s of
        None \<Rightarrow> Inl (Exn (''time data '' @ s @ '' does not match format''))
      | Some d \<Rightarrow> if valid_datetime d then Inr d else Inl (Exn ''value out of range''))"

text \<open>
  \<^verbatim>\<open>(a - b).total_seconds()\<close>.  Python subtracts the proleptic Gregorian ordinals
  of the dates, the seconds of the day and the microseconds; \<open>total_us\<close> is the number
  of microseconds since the start of year 1, and the seconds are kept as an exact
  rational where Python rounds to a float.
\<close>

definition days_before_year :: "nat \<Rightarrow> int" where
  "days_before_year y =
     (let y1 = int y - 1 in y1 * 365 + y1 div 4 - y1 div 100 + y1 div 400)"

definition days_before_month :: "nat \<Rightarrow> nat \<Rightarrow> int" where
  "days_before_month y m =
     [0, 0, 31, 59, 90, 120, 151, 181, 212, 243, 273, 304, 334] ! m +
     (if 2 < m \<and> is_leap y then 1 else 0)"

definition toordinal :: "datetime \<Rightarrow> int" where
  "toordinal d = days_before_year (year d) + days_before_month (year d) (month d) + int (day d)"

definition total_us :: "datetime \<Rightarrow> int" where
  "total_us d =
     ((toordinal d * 86400 + int (second d + minute d * 60 + hour d * 3600)) * 1000000
      + int (microsecond d))"

definition total_seconds :: "datetime \<Rightarrow> datetime \<Rightarrow> rat" where
  "total_seconds a b = of_int (total_us a - total_us b) / 1000000"

text \<open>Comparison of two \<^verbatim>\<open>datetime\<close> objects: lexicographic on the fields.\<close>

definition dt_key :: "datetime \<Rightarrow> nat list" where
  "dt_key d = [year d, month d, day d, hour d, minute d, second d, microsecond d]"

fun key_less :: "nat list \<Rightarrow> nat list \<Rightarrow> bool" where
  "key_less (x # xs) (y # ys) = (x < y \<or> (x = y \<and> key_less xs ys))"
| "key_less _ _ = False"

definition dt_greater :: "datetime \<Rightarrow> datetime \<Rightarrow> bool" where
  "dt_greater a b = key_less (dt_key b) (dt_key a)"

section \<open>Events, the environment and the logger's state\<close>

text \<open>
  One entry of \<^verbatim>\<open>self._local_queue\<close>: the dictionary that
  \<^verbatim>\<open>_log_with_component\<close> appends, with its six keys (\<open>function_name\<close> is the key
  \<^verbatim>\<open>'function'\<close>).
\<close>

record event =
  timestamp :: string
  level :: string
  component :: string
  function_name :: string
  message :: string
  formatted_message :: string

type_synonym callback = "event list \<Rightarrow> exn option"

text \<open>
  What the wrapper calls but does not define.  \<open>console s\<close> tells whether
  \<^verbatim>\<open>print(s)\<close> raises; \<open>native\<close> is the foreign \<^verbatim>\<open>log\<close> entry point when the
  library was loaded and returned a handle (\<^verbatim>\<open>self._logger and self._library_loaded\<close>),
  applied to level, component, function and formatted message, its result telling whether
  the guarded block (the four \<^verbatim>\<open>encode\<close> calls and the foreign call) raises;
  \<open>open_raises\<close> and \<open>write_raises\<close> tell whether \<^verbatim>\<open>open(path, 'w')\<close> and
  \<^verbatim>\<open>f.write(text)\<close> raise; \<open>close_raises\<close> tells whether closing the file raises
  when it flushes the buffered text, and \<open>flushed\<close> is the number of characters of
  that text which have reached the file when it does; \<open>json_dumps\<close> is the text
  \<^verbatim>\<open>json.dump(logs, f, indent=2)\<close> writes, \<open>csv_line\<close> the line the \<^verbatim>\<open>csv\<close>
  writer makes of a row, and \<open>fromtimestamp\<close> is \<^verbatim>\<open>datetime.fromtimestamp\<close> in the
  local time zone.
\<close>

record env =
  console :: "string \<Rightarrow> exn option"
  native :: "(string \<Rightarrow> string \<Rightarrow> string \<Rightarrow> string \<Rightarrow> exn option) option"
  open_raises :: "string \<Rightarrow> exn option"
  write_raises :: "string \<Rightarrow> string \<Rightarrow> exn option"
  close_raises :: "string \<Rightarrow> string \<Rightarrow> exn option"
  flushed :: "string \<Rightarrow> string \<Rightarrow> nat"
  json_dumps :: "event list \<Rightarrow> string"
  csv_line :: "string list \<Rightarrow> string"
  fromtimestamp :: "rat \<Rightarrow> datetime"

text \<open>
  The state the methods read and change: the queue, the lines printed so far, the
  messages the native library accepted, the files written, and the monitoring threads
  started (each with its callback and interval).
\<close>

record world =
  local_queue :: "event list"
  stdout :: "string list"
  forwarded :: "(string \<times> string \<times> string \<times> string) list"
  files :: "string \<rightharpoonup> string"
  monitors :: "(callback option \<times> rat) list"

text \<open>
  A method either returns or raises; in both cases the state it leaves is part of the
  result.
\<close>

type_synonym outcome = "(exn + unit) \<times> world"

definition and_then :: "outcome \<Rightarrow> (world \<Rightarrow> outcome) \<Rightarrow> outcome" where
  "and_then r k = (case r of (Inl e, w) \<Rightarrow> (Inl e, w) | (Inr u, w) \<Rightarrow> k w)"

definition except_exception :: "outcome \<Rightarrow> (exn \<Rightarrow> world \<Rightarrow> outcome) \<Rightarrow> outcome" where
  "except_exception r h = (case r of (Inl e, w) \<Rightarrow> h e w | (Inr u, w) \<Rightarrow> (Inr u, w))"

definition py_print :: "env \<Rightarrow> world \<Rightarrow> string \<Rightarrow> outcome" where
  "py_print en w s =
     (case console en s of
        Some e \<Rightarrow> (Inl e, w)
      | None \<Rightarrow> (Inr (), w\<lparr>stdout := stdout w @ [s]\<rparr>))"

text \<open>The state \<^verbatim>\<open>__init__\<close> leaves: an empty queue and no monitoring thread.\<close>

definition init_world :: "(string \<rightharpoonup> string) \<Rightarrow> string list \<Rightarrow> world" where
  "init_world fs out =
     \<lparr>local_queue = [], stdout = out, forwarded = [], files = fs, monitors = []\<rparr>"

section \<open>Ingestion\<close>

definition output_to_python_logging :: "env \<Rightarrow> world \<Rightarrow> string \<Rightarrow> string \<Rightarrow> outcome" where
  "output_to_python_logging en w lvl msg =
     (if upper lvl = ''TRACE'' then py_print en w (''TRACE: '' @ msg)
      else if upper lvl = ''DEBUG'' then py_print en w (''DEBUG: '' @ msg)
      else if upper lvl = ''INFO'' then py_print en w (''INFO: '' @ msg)
      else if upper lvl = ''WARN'' then py_print en w (''WARNING: '' @ msg)
      else if upper lvl = ''ERROR'' then py_print en w (''ERROR: '' @ msg)
      else if upper lvl = ''CRITICAL'' then py_print en w (''CRITICAL: '' @ msg)
      else (Inr (), w))"

definition now_timestamp :: "datetime \<Rightarrow> string" where
  "now_timestamp now = drop_last3 (strftime now)"

definition format_message :: "string \<Rightarrow> string \<Rightarrow> string \<Rightarrow> string" where
  "format_message ts cmpt msg = ''['' @ ts @ ''] ['' @ cmpt @ ''] '' @ msg"

definition mk_event :: "string \<Rightarrow> string \<Rightarrow> string \<Rightarrow> string \<Rightarrow> datetime \<Rightarrow> event" where
  "mk_event lvl msg cmpt fn now =
     \<lparr>timestamp = now_timestamp now, level = upper lvl, component = cmpt,
      function_name = fn, message = msg,
      formatted_message = format_message (now_timestamp now) cmpt msg\<rparr>"

definition forward_native :: "env \<Rightarrow> world \<Rightarrow> string \<Rightarrow> string \<Rightarrow> string \<Rightarrow> string \<Rightarrow> world" where
  "forward_native en w lvl cmpt fn fm =
     (case native en of
        None \<Rightarrow> w
      | Some lg \<Rightarrow>
          (case lg lvl cmpt fn fm of
             None \<Rightarrow> w\<lparr>forwarded := forwarded w @ [(lvl, cmpt, fn, fm)]\<rparr>
           | Some e \<Rightarrow> w))"

definition append_bounded :: "event list \<Rightarrow> event \<Rightarrow> event list" where
  "append_bounded q e = (let q' = q @ [e] in if length q' > 1000 then tl q' else q')"

text \<open>
  \<^verbatim>\<open>_log_with_component\<close>; \<open>now\<close> is what \<^verbatim>\<open>datetime.now()\<close> returns in this
  call.  The handler of the outer \<^verbatim>\<open>try\<close> prints, and that \<^verbatim>\<open>print\<close> is not
  guarded.
\<close>

definition log_with_component ::
  "env \<Rightarrow> world \<Rightarrow> string \<Rightarrow> string \<Rightarrow> string \<Rightarrow> string \<Rightarrow> datetime \<Rightarrow> outcome" where
  "log_with_component en w lvl msg cmpt fn now =
     (let ts = now_timestamp now;
          fm = format_message ts cmpt msg;
          w1 = forward_native en w lvl cmpt fn fm;
          w2 = w1\<lparr>local_queue := append_bounded (local_queue w1) (mk_event lvl msg cmpt fn now)\<rparr>
      in except_exception (output_to_python_logging en w2 lvl fm)
           (\<lambda>e w3. py_print en w3 (''Error in Python logging: '' @ str_exn e)))"

definition trace :: "env \<Rightarrow> world \<Rightarrow> string \<Rightarrow> string \<Rightarrow> string \<Rightarrow> datetime \<Rightarrow> outcome" where
  "trace en w msg cmpt fn now = log_with_component en w ''trace'' msg cmpt fn now"

definition debug :: "env \<Rightarrow> world \<Rightarrow> string \<Rightarrow> string \<Rightarrow> string \<Rightarrow> datetime \<Rightarrow> outcome" where
  "debug en w msg cmpt fn now = log_with_component en w ''debug'' msg cmpt fn now"

definition info :: "env \<Rightarrow> world \<Rightarrow> string \<Rightarrow> string \<Rightarrow> string \<Rightarrow> datetime \<Rightarrow> outcome" where
  "info en w msg cmpt fn now = log_with_component en w ''info'' msg cmpt fn now"

definition warn :: "env \<Rightarrow> world \<Rightarrow> string \<Rightarrow> string \<Rightarrow> string \<Rightarrow> datetime \<Rightarrow> outcome" where
  "warn en w msg cmpt fn now = log_with_component en w ''warn'' msg cmpt fn now"

definition error :: "env \<Rightarrow> world \<Rightarrow> string \<Rightarrow> string \<Rightarrow> string \<Rightarrow> datetime \<Rightarrow> outcome" where
  "error en w msg cmpt fn now = log_with_component en w ''error'' msg cmpt fn now"

definition critical :: "env \<Rightarrow> world \<Rightarrow> string \<Rightarrow> string \<Rightarrow> string \<Rightarrow> datetime \<Rightarrow> outcome" where
  "critical en w msg cmpt fn now = log_with_component en w ''critical'' msg cmpt fn now"

text \<open>
  One call of the ingestion surface: which of the six methods, its three arguments, and
  the clock value the call reads.  \<open>record_all\<close> makes the calls one after the other, the
  caller going on whether a call raised or not.
\<close>

datatype entry = Trace | Debug | Info | Warn | Error | Critical

datatype call = Call entry string string string datetime

fun level_name :: "entry \<Rightarrow> string" where
  "level_name Trace = ''trace''"
| "level_name Debug = ''debug''"
| "level_name Info = ''info''"
| "level_name Warn = ''warn''"
| "level_name Error = ''error''"
| "level_name Critical = ''critical''"

fun ingest :: "env \<Rightarrow> world \<Rightarrow> call \<Rightarrow> outcome" where
  "ingest en w (Call Trace msg cmpt fn now) = trace en w msg cmpt fn now"
| "ingest en w (Call Debug msg cmpt fn now) = debug en w msg cmpt fn now"
| "ingest en w (Call Info msg cmpt fn now) = info en w msg cmpt fn now"
| "ingest en w (Call Warn msg cmpt fn now) = warn en w msg cmpt fn now"
| "ingest en w (Call Error msg cmpt fn now) = error en w msg cmpt fn now"
| "ingest en w (Call Critical msg cmpt fn now) = critical en w msg cmpt fn now"

fun event_of :: "call \<Rightarrow> event" where
  "event_of (Call m msg cmpt fn now) = mk_event (level_name m) msg cmpt fn now"

fun call_now :: "call \<Rightarrow> datetime" where
  "call_now (Call m msg cmpt fn now) = now"

fun record_all :: "env \<Rightarrow> world \<Rightarrow> call list \<Rightarrow> world" where
  "record_all en w [] = w"
| "record_all en w (c # cs) = record_all en (snd (ingest en w c)) cs"

text \<open>\<^verbatim>\<open>clear_local_logs\<close>.\<close>

definition clear_local_logs :: "world \<Rightarrow> world" where
  "clear_local_logs w = w\<lparr>local_queue := []\<rparr>"

section \<open>Queries\<close>

text \<open>
  The slice \<^verbatim>\<open>xs[-limit:]\<close> for any integer \<^verbatim>\<open>limit\<close>: the start index
  \<^verbatim>\<open>-limit\<close> counts from the end when it is negative, and is clipped to the list.
\<close>

definition py_tail :: "'a list \<Rightarrow> int \<Rightarrow> 'a list" where
  "py_tail xs limit =
     (let n = int (length xs);
          start = - limit;
          i = (if start < 0 then max (start + n) 0 else min start n)
      in drop (nat i) xs)"

definition filtered_logs :: "world \<Rightarrow> string \<Rightarrow> string \<Rightarrow> event list" where
  "filtered_logs w cmpt lvl =
     (let f0 = local_queue w;
          f1 = (if cmpt \<noteq> [] then filter (\<lambda>l. component l = cmpt) f0 else f0);
          f2 = (if lvl \<noteq> [] then filter (\<lambda>l. level l = upper lvl) f1 else f1)
      in f2)"

definition get_local_logs :: "world \<Rightarrow> string \<Rightarrow> string \<Rightarrow> int \<Rightarrow> event list" where
  "get_local_logs w cmpt lvl limit =
     (let f = filtered_logs w cmpt lvl in if f \<noteq> [] then py_tail f limit else [])"

text \<open>
  The result of \<^verbatim>\<open>get_log_statistics\<close>: the dictionary with the one key
  \<^verbatim>\<open>total_messages\<close>, or the one with all five keys.  A Python \<^verbatim>\<open>dict\<close> of
  counters is an association list in insertion order.
\<close>

record stats =
  total_messages :: nat
  level_distribution :: "(string \<times> nat) list"
  component_distribution :: "(string \<times> nat) list"
  time_range_seconds :: rat
  messages_per_second :: rat

datatype statistics = Total_Only nat | Full stats

fun count_by :: "(event \<Rightarrow> string) \<Rightarrow> event list \<Rightarrow> (string \<times> nat) list \<Rightarrow> (string \<times> nat) list" where
  "count_by key [] counts = counts"
| "count_by key (l # logs) counts =
     count_by key logs
       (AList.update (key l) ((case map_of counts (key l) of None \<Rightarrow> 0 | Some c \<Rightarrow> c) + 1) counts)"

definition time_range :: "event list \<Rightarrow> exn + rat" where
  "time_range logs =
     (if length logs \<ge> 2 then
        (case strptime (timestamp (hd logs)) of
           Inl e \<Rightarrow> Inl e
         | Inr oldest \<Rightarrow>
             (case strptime (timestamp (last logs)) of
                Inl e \<Rightarrow> Inl e
              | Inr newest \<Rightarrow> Inr (total_seconds newest oldest)))
      else Inr 0)"

definition get_log_statistics :: "world \<Rightarrow> exn + statistics" where
  "get_log_statistics w =
     (let logs = local_queue w in
      if logs = [] then Inr (Total_Only 0)
      else
        (let level_counts = count_by level logs [];
             component_counts = count_by component logs []
         in case time_range logs of
              Inl e \<Rightarrow> Inl e
            | Inr tr \<Rightarrow>
                Inr (Full \<lparr>total_messages = length logs,
                           level_distribution = level_counts,
                           component_distribution = component_counts,
                           time_range_seconds = tr,
                           messages_per_second = of_nat (length logs) / max tr 1\<rparr>)))"

section \<open>Export\<close>









section \<open>Monitoring\<close>

text \<open>
  \<^verbatim>\<open>enable_real_time_monitoring\<close> defines the loop, starts a daemon thread that
  runs it, and prints a line.  The thread is one more entry of \<open>monitors\<close>.
\<close>

definition enable_real_time_monitoring :: "env \<Rightarrow> world \<Rightarrow> callback option \<Rightarrow> rat \<Rightarrow> outcome" where
  "enable_real_time_monitoring en w cb interval_seconds =
     py_print en (w\<lparr>monitors := monitors w @ [(cb, interval_seconds)]\<rparr>)
       ''Real-time monitoring enabled''"

text \<open>
  The list comprehension of the loop: the entries whose parsed timestamp is later than
  the last check; \<^verbatim>\<open>strptime\<close> may raise on an entry.
\<close>

fun select_new :: "datetime \<Rightarrow> event list \<Rightarrow> exn + event list" where
  "select_new t [] = Inr []"
| "select_new t (l # logs) =
     (case strptime (timestamp l) of
        Inl e \<Rightarrow> Inl e
      | Inr d \<Rightarrow>
          (case select_new t logs of
             Inl e \<Rightarrow> Inl e
           | Inr r \<Rightarrow> Inr (if dt_greater d t then l # r else r)))"

text \<open>
  \<^verbatim>\<open>monitoring_loop\<close>, the body of the thread.  The loop is \<^verbatim>\<open>while True\<close>; the
  model runs it for the iterations of a schedule, each giving the value of
  \<^verbatim>\<open>time.time()\<close> in that iteration and the queue as the thread finds it under the
  lock.  The result is the list of the arguments the callback was called with, the lines
  the thread printed, and how the run ended: \<open>Running\<close> when the schedule ended first,
  \<open>Broke\<close> when the handler printed and left the loop by \<^verbatim>\<open>break\<close>, \<open>Crashed\<close>
  when the handler's own \<^verbatim>\<open>print\<close> raised and ended the thread.
\<close>

datatype loop_status = Running | Broke | Crashed exn

type_synonym run = "event list list \<times> string list \<times> loop_status"

definition loop_handler :: "env \<Rightarrow> exn \<Rightarrow> run" where
  "loop_handler en e =
     (let line = ''Error in monitoring loop: '' @ str_exn e in
      case console en line of
        None \<Rightarrow> ([], [line], Broke)
      | Some e' \<Rightarrow> ([], [], Crashed e'))"

definition delivered :: "event list \<Rightarrow> run \<Rightarrow> run" where
  "delivered msgs r = (case r of (cs, out, st) \<Rightarrow> (msgs # cs, out, st))"

fun monitoring_loop ::
  "env \<Rightarrow> callback option \<Rightarrow> rat \<Rightarrow> rat \<Rightarrow> (rat \<times> event list) list \<Rightarrow> run" where
  "monitoring_loop en cb interval_seconds last_check_time [] = ([], [], Running)"
| "monitoring_loop en cb interval_seconds last_check_time ((current_time, queue) # rest) =
     (if current_time - last_check_time \<ge> interval_seconds then
        (case select_new (fromtimestamp en last_check_time) queue of
           Inl e \<Rightarrow> loop_handler en e
         | Inr new_messages \<Rightarrow>
             (case (if new_messages \<noteq> [] then cb else None) of
                None \<Rightarrow> monitoring_loop en cb interval_seconds current_time rest
              | Some f \<Rightarrow>
                  (case f new_messages of
                     Some e \<Rightarrow> delivered new_messages (loop_handler en e)
                   | None \<Rightarrow>
                       delivered new_messages
                         (monitoring_loop en cb interval_seconds current_time rest))))
      else monitoring_loop en cb interval_seconds last_check_time rest)"

section \<open>Notions used to state the properties\<close>



text \<open>
  A text of ASCII characters only.  On such a text \<open>upper\<close> is Python's
  \<^verbatim>\<open>str.upper\<close>; on other text Python also maps letters outside ASCII, and the
  properties of the level filter below are stated for ASCII filters.
\<close>

definition ascii_text :: "string \<Rightarrow> bool" where
  "ascii_text s = list_all (\<lambda>c. of_char c < (128::nat)) s"

text \<open>A clock value with the microseconds cut down to whole milliseconds.\<close>

definition truncate_ms :: "datetime \<Rightarrow> datetime" where
  "truncate_ms d = d\<lparr>microsecond := microsecond d div 1000 * 1000\<rparr>"

text \<open>
  The query as the specification words it: an event passes when the component filter is
  empty or equals its component, and the level filter is empty or equals its level up to
  the case of the letters; the answer is the last \<open>limit\<close> events that pass.
\<close>

definition spec_matches :: "string \<Rightarrow> string \<Rightarrow> event \<Rightarrow> bool" where
  "spec_matches c l e = ((c = [] \<or> component e = c) \<and> (l = [] \<or> upper (level e) = upper l))"

definition spec_last :: "nat \<Rightarrow> 'a list \<Rightarrow> 'a list" where
  "spec_last n xs = drop (length xs - n) xs"

definition spec_query :: "event list \<Rightarrow> string \<Rightarrow> string \<Rightarrow> int \<Rightarrow> event list" where
  "spec_query S c l limit = spec_last (nat limit) (filter (spec_matches c l) S)"



text \<open>
  Environments and clock values for the examples: a logger in local-only mode whose
  prints, opens and writes all succeed; the same with a closed standard output, where
  every \<^verbatim>\<open>print\<close> raises \<^verbatim>\<open>ValueError\<close>; the same with a destination that
  cannot be opened; and the same on a full disk, where the flush of every close raises
  and nothing reaches the file; a callback that returns.  The two serialisers and the time zone of these environments are
  simple stand-ins for the library functions; no property depends on them.
\<close>

definition quiet_env :: env where
  "quiet_env =
     \<lparr>console = (\<lambda>s. None), native = None, open_raises = (\<lambda>p. None),
      write_raises = (\<lambda>p s. None), close_raises = (\<lambda>p b. None), flushed = (\<lambda>p b. 0),
      json_dumps = (\<lambda>logs. concat (map message logs)),
      csv_line = (\<lambda>row. concat (map (\<lambda>f. f @ '','') row)),
      fromtimestamp = (\<lambda>t. \<lparr>year = 1970, month = 1, day = 1, hour = 0, minute = 0,
        second = 0, microsecond = 0\<rparr>)\<rparr>"

definition closed_stdout_env :: env where
  "closed_stdout_env = quiet_env\<lparr>console := (\<lambda>s. Some (Exn ''I/O operation on closed file''))\<rparr>"



definition noon :: "nat \<Rightarrow> nat \<Rightarrow> datetime" where
  "noon s us = \<lparr>year = 2024, month = 2, day = 29, hour = 12, minute = 0, second = s,
     microsecond = us\<rparr>"

definition empty_world :: world where
  "empty_world = init_world Map.empty []"

definition three_calls :: "call list" where
  "three_calls =
     [Call Info ''one'' ''A'' [] (noon 0 0), Call Warn ''two'' ''A'' [] (noon 0 1000),
      Call Error ''three'' ''B'' [] (noon 2 500000)]"

definition three_world :: world where
  "three_world = record_all quiet_env empty_world three_calls"



section \<open>The queue after a sequence of calls\<close>


lemma local_queue_py_print: "local_queue (snd (py_print en w s)) = local_queue w"
  by (simp add: py_print_def split: option.split)

lemma local_queue_output:
  "local_queue (snd (output_to_python_logging en w lvl msg)) = local_queue w"
  by (simp add: output_to_python_logging_def local_queue_py_print)

lemma local_queue_except_print:
  "local_queue (snd (except_exception r (\<lambda>e w'. py_print en w' (f e)))) = local_queue (snd r)"
  by (cases r) (simp add: except_exception_def local_queue_py_print split: sum.split)

lemma local_queue_forward_native:
  "local_queue (forward_native en w lvl c fn fm) = local_queue w"
  by (simp add: forward_native_def split: option.split)

lemma local_queue_log_with_component:
  "local_queue (snd (log_with_component en w lvl msg c fn now)) =
     append_bounded (local_queue w) (mk_event lvl msg c fn now)"
  by (simp add: log_with_component_def Let_def local_queue_except_print local_queue_output
      local_queue_forward_native)

lemma local_queue_ingest:
  "local_queue (snd (ingest en w c)) = append_bounded (local_queue w) (event_of c)"
proof (cases c)
  case (Call m msg cn fn now)
  then show ?thesis
    by (cases m)
      (simp_all add: trace_def debug_def info_def warn_def error_def critical_def
        local_queue_log_with_component)
qed

lemma local_queue_record_all:
  "local_queue (record_all en w cs) = foldl append_bounded (local_queue w) (map event_of cs)"
  by (induction cs arbitrary: w) (simp_all add: local_queue_ingest)

lemma foldl_append_bounded:
  "length q \<le> 1000 \<Longrightarrow>
     foldl append_bounded q es = drop (length q + length es - 1000) (q @ es)"
proof (induction es arbitrary: q)
  case Nil
  then show ?case by simp
next
  case (Cons e es)
  show ?case
  proof (cases "length q < 1000")
    case True
    then have "append_bounded q e = q @ [e]"
      by (simp add: append_bounded_def)
    with Cons.IH [of "q @ [e]"] True show ?thesis by simp
  next
    case False
    with Cons.prems have len: "length q = 1000" by simp
    then obtain x q' where q: "q = x # q'" by (cases q) auto
    with len have ab: "append_bounded q e = q' @ [e]"
      by (simp add: append_bounded_def)
    from q len have "length (q' @ [e]) \<le> 1000" by simp
    from Cons.IH [OF this] ab q len show ?thesis by (simp add: drop_Cons')
  qed
qed

lemma record_all_queue:
  "local_queue (record_all en (init_world fs out) cs) = drop (length cs - 1000) (map event_of cs)"
  by (simp add: local_queue_record_all init_world_def foldl_append_bounded)

lemma record_all_snoc: "record_all en w (cs @ [c]) = snd (ingest en (record_all en w cs) c)"
  by (induction cs arbitrary: w) simp_all

text \<open>
  Calls and \<open>clear_local_logs\<close> are all that changes the queue, so every queue a
  logger ever holds is a list of at most 1000 events made by ingestion calls.
\<close>

lemma record_all_keeps_events:
  "local_queue w = map event_of ks \<Longrightarrow> length ks \<le> 1000 \<Longrightarrow>
     local_queue (record_all en w cs) =
       map event_of (drop (length ks + length cs - 1000) (ks @ cs))"
  by (simp add: local_queue_record_all foldl_append_bounded drop_map)

lemma clear_local_logs_events: "local_queue (clear_local_logs w) = map event_of []"
  by (simp add: clear_local_logs_def)

text \<open>
  Claim C1.  Start from a new logger and make any sequence \<open>cs\<close> of calls of \<open>trace\<close>,
  \<open>debug\<close>, \<open>info\<close>, \<open>warn\<close>, \<open>error\<close> and \<open>critical\<close>.  The queue
  then holds \<open>min (length cs) 1000\<close> events, and they are the events of the last 1000
  calls (of all calls when there were fewer) in the order of the calls.  One more call
  appends its event, and removes the single oldest event exactly when the queue was
  full.  As \<open>cs\<close> is any sequence, this holds after each call of a sequence.
\<close>

theorem capacity_invariant:
  "length (local_queue (record_all en (init_world fs out) cs)) = min (length cs) 1000 \<and>
   local_queue (record_all en (init_world fs out) cs) = drop (length cs - 1000) (map event_of cs) \<and>
   local_queue (record_all en (init_world fs out) (cs @ [c])) =
     (if length cs < 1000 then local_queue (record_all en (init_world fs out) cs)
      else tl (local_queue (record_all en (init_world fs out) cs))) @ [event_of c]"
proof -
  let ?q = "local_queue (record_all en (init_world fs out) cs)"
  have q: "?q = drop (length cs - 1000) (map event_of cs)"
    by (rule record_all_queue)
  then have len: "length ?q = min (length cs) 1000" by auto
  have "local_queue (record_all en (init_world fs out) (cs @ [c])) = append_bounded ?q (event_of c)"
    by (simp only: record_all_snoc local_queue_ingest)
  also have "\<dots> = (if length cs < 1000 then ?q else tl ?q) @ [event_of c]"
  proof (cases "length cs < 1000")
    case True
    with len show ?thesis by (simp add: append_bounded_def)
  next
    case False
    with len have "length ?q = 1000" by simp
    then have "?q \<noteq> []" by auto
    with False \<open>length ?q = 1000\<close> show ?thesis by (simp add: append_bounded_def)
  qed
  finally show ?thesis using q len by simp
qed


section \<open>Timestamps\<close>

lemma length_zpad [simp]: "length (zpad w n) = w"
  by (induction w arbitrary: n) simp_all

lemma digit_of_digit: "digit_of (digit n) = Some (n mod 10)"
proof -
  have "n mod 10 = 0 \<or> n mod 10 = 1 \<or> n mod 10 = 2 \<or> n mod 10 = 3 \<or> n mod 10 = 4 \<or>
      n mod 10 = 5 \<or> n mod 10 = 6 \<or> n mod 10 = 7 \<or> n mod 10 = 8 \<or> n mod 10 = 9"
    by arith
  then show ?thesis
    by (elim disjE) (simp_all add: digit_def digit_of_def)
qed

lemma digits_val_append:
  "digits_val (xs @ ys) acc =
     (case digits_val xs acc of None \<Rightarrow> None | Some a \<Rightarrow> digits_val ys a)"
  by (induction xs arbitrary: acc) (simp_all split: option.split)

lemma digits_val_zpad: "digits_val (zpad w n) acc = Some (acc * 10 ^ w + n mod 10 ^ w)"
proof (induction w arbitrary: n acc)
  case 0
  then show ?case by simp
next
  case (Suc w)
  have "n mod (10 * 10 ^ w) = 10 * (n div 10 mod 10 ^ w) + n mod 10"
    by (simp add: mod_mult2_eq)
  then show ?case
    by (simp add: digits_val_append Suc.IH digit_of_digit algebra_simps)
qed

lemma field_zpad: "n < 10 ^ w \<Longrightarrow> field w (zpad w n @ rest) = Some (n, rest)"
  by (simp add: field_def digits_val_zpad)

lemma expect_Cons: "expect c (c # rest) = Some rest"
  by (simp add: expect_def)

lemma zpad3: "zpad 3 n = [digit (n div 10 div 10), digit (n div 10), digit n]"
proof -
  have "(3::nat) = Suc (Suc (Suc 0))" by simp
  then show ?thesis by (simp only: zpad.simps) simp
qed

lemma zpad6_split: "zpad 6 n = zpad 3 (n div 1000) @ zpad 3 n"
proof -
  have "(6::nat) = Suc (Suc (Suc 3))" by simp
  then have "zpad 6 n = zpad 3 (n div 10 div 10 div 10) @ [digit (n div 10 div 10), digit (n div 10), digit n]"
    by (simp only: zpad.simps) simp
  moreover have "n div 10 div 10 div 10 = n div 1000"
    by (simp add: div_mult2_eq [symmetric])
  ultimately show ?thesis by (simp add: zpad3)
qed

lemma drop_last3_append: "length ys = 3 \<Longrightarrow> drop_last3 (xs @ ys) = xs"
  by (simp add: drop_last3_def)

lemma now_timestamp_eq:
  "now_timestamp d =
     zpad 4 (year d) @ ''-'' @ zpad 2 (month d) @ ''-'' @ zpad 2 (day d) @ '' '' @
     zpad 2 (hour d) @ '':'' @ zpad 2 (minute d) @ '':'' @ zpad 2 (second d) @ ''.'' @
     zpad 3 (microsecond d div 1000)"
proof -
  let ?pre = "zpad 4 (year d) @ ''-'' @ zpad 2 (month d) @ ''-'' @ zpad 2 (day d) @ '' '' @
     zpad 2 (hour d) @ '':'' @ zpad 2 (minute d) @ '':'' @ zpad 2 (second d) @ ''.'' @
     zpad 3 (microsecond d div 1000)"
  have "strftime d = ?pre @ zpad 3 (microsecond d)"
    by (simp add: strftime_def zpad6_split)
  then show ?thesis
    unfolding now_timestamp_def by (simp only: drop_last3_append length_zpad)
qed

lemma fraction_zpad3: "n < 1000 \<Longrightarrow> fraction (zpad 3 n) = Some (n * 1000)"
  by (simp add: fraction_def digits_val_zpad)

lemma days_in_month_le: "m \<le> 12 \<Longrightarrow> days_in_month y m \<le> 31"
proof -
  assume "m \<le> 12"
  then have "m = 0 \<or> m = 1 \<or> m = 2 \<or> m = 3 \<or> m = 4 \<or> m = 5 \<or> m = 6 \<or> m = 7 \<or> m = 8 \<or>
      m = 9 \<or> m = 10 \<or> m = 11 \<or> m = 12"
    by arith
  then show ?thesis
    by (elim disjE) (simp_all add: days_in_month_def)
qed

lemma parse_fields_now_timestamp:
  assumes "valid_datetime d"
  shows "parse_fields (now_timestamp d) = Some (truncate_ms d)"
proof -
  from assms have "day d \<le> days_in_month (year d) (month d)" and "month d \<le> 12"
    by (simp_all add: valid_datetime_def)
  with days_in_month_le [of "month d" "year d"] have "day d \<le> 31" by simp
  with assms have r: "year d < 10 ^ 4" "month d < 10 ^ 2" "day d < 10 ^ 2" "hour d < 10 ^ 2"
      "minute d < 10 ^ 2" "second d < 10 ^ 2"
    by (simp_all add: valid_datetime_def)
  from assms have "microsecond d < 1000000" by (simp add: valid_datetime_def)
  then have us: "microsecond d div 1000 < 1000" by arith
  show ?thesis
    unfolding parse_fields_def now_timestamp_eq
    apply (simp only: append_assoc field_zpad [OF r(1)] bind.bind_lunit prod.case)
    apply (simp only: append_Cons append_Nil expect_Cons bind.bind_lunit)
    apply (simp only: append_assoc field_zpad [OF r(2)] bind.bind_lunit prod.case)
    apply (simp only: append_Cons append_Nil expect_Cons bind.bind_lunit)
    apply (simp only: append_assoc field_zpad [OF r(3)] bind.bind_lunit prod.case)
    apply (simp only: append_Cons append_Nil expect_Cons bind.bind_lunit)
    apply (simp only: append_assoc field_zpad [OF r(4)] bind.bind_lunit prod.case)
    apply (simp only: append_Cons append_Nil expect_Cons bind.bind_lunit)
    apply (simp only: append_assoc field_zpad [OF r(5)] bind.bind_lunit prod.case)
    apply (simp only: append_Cons append_Nil expect_Cons bind.bind_lunit)
    apply (simp only: append_assoc field_zpad [OF r(6)] bind.bind_lunit prod.case)
    apply (simp only: append_Cons append_Nil expect_Cons bind.bind_lunit)
    apply (simp only: fraction_zpad3 [OF us] bind.bind_lunit truncate_ms_def)
    apply simp
    done
qed


lemma valid_truncate_ms: "valid_datetime d \<Longrightarrow> valid_datetime (truncate_ms d)"
proof -
  assume v: "valid_datetime d"
  then have "microsecond d < 1000000" by (simp add: valid_datetime_def)
  then have "microsecond d div 1000 * 1000 < 1000000" by arith
  with v show "valid_datetime (truncate_ms d)"
    by (simp add: valid_datetime_def truncate_ms_def)
qed

lemma strptime_now_timestamp:
  "valid_datetime d \<Longrightarrow> strptime (now_timestamp d) = Inr (truncate_ms d)"
  by (simp add: strptime_def parse_fields_now_timestamp valid_truncate_ms)

lemma append_bounded_last: "append_bounded q e \<noteq> [] \<and> last (append_bounded q e) = e"
proof (cases "length (q @ [e]) > 1000")
  case True
  then have "length q \<ge> 2" by simp
  then obtain x y q' where "q = x # y # q'"
    by (cases q; cases "tl q") auto
  with True show ?thesis by (simp add: append_bounded_def)
next
  case False
  then show ?thesis by (simp add: append_bounded_def)
qed

lemma timestamp_event_of: "timestamp (event_of c) = now_timestamp (call_now c)"
  by (cases c) (simp add: mk_event_def)

lemma valid_noon: "s < 60 \<Longrightarrow> us < 1000000 \<Longrightarrow> valid_datetime (noon s us)"
  by (simp add: valid_datetime_def noon_def days_in_month_def is_leap_def)

text \<open>
  Claim C7, as amended.  The timestamp stored with an event is the clock value that its
  call read, written with millisecond resolution: \<^verbatim>\<open>_log_with_component\<close> formats
  the value with six digits of fraction and cuts the last three off.  The stored text
  parses back to the clock value with the microseconds rounded down to whole
  milliseconds.
\<close>

theorem stored_timestamp_milliseconds:
  "valid_datetime (call_now c) \<Longrightarrow>
     local_queue (snd (ingest en w c)) \<noteq> [] \<and>
     timestamp (last (local_queue (snd (ingest en w c)))) = drop_last3 (strftime (call_now c)) \<and>
     strptime (timestamp (last (local_queue (snd (ingest en w c))))) = Inr (truncate_ms (call_now c))"
  by (simp add: local_queue_ingest append_bounded_last timestamp_event_of strptime_now_timestamp)
    (simp add: now_timestamp_def)

lemma zpad2: "zpad 2 n = [digit (n div 10), digit n]"
proof -
  have "(2::nat) = Suc (Suc 0)" by simp
  then show ?thesis by (simp only: zpad.simps) simp
qed

lemma zpad4: "zpad 4 n = [digit (n div 10 div 10 div 10), digit (n div 10 div 10), digit (n div 10), digit n]"
proof -
  have "(4::nat) = Suc (Suc (Suc (Suc 0)))" by simp
  then show ?thesis by (simp only: zpad.simps) simp
qed

lemmas timestamp_eval = now_timestamp_eq zpad2 zpad3 zpad4 digit_def noon_def

lemma info_queue:
  "local_queue (snd (info en w msg c fn now)) =
     append_bounded (local_queue w) (mk_event ''info'' msg c fn now)"
  by (simp add: info_def local_queue_log_with_component)

theorem stored_timestamp_milliseconds_witness:
  "valid_datetime (call_now (Call Info ''m'' ''Python'' [] (noon 0 123456))) \<and>
   strptime (timestamp (last (local_queue (snd (ingest quiet_env empty_world
       (Call Info ''m'' ''Python'' [] (noon 0 123456))))))) = Inr (noon 0 123000)"
proof -
  have v: "valid_datetime (call_now (Call Info ''m'' ''Python'' [] (noon 0 123456)))"
    by (simp add: valid_noon)
  have t: "truncate_ms (noon 0 123456) = noon 0 123000"
    by (simp add: truncate_ms_def noon_def)
  from stored_timestamp_milliseconds [OF v, of quiet_env empty_world]
  have "strptime (timestamp (last (local_queue (snd (ingest quiet_env empty_world
       (Call Info ''m'' ''Python'' [] (noon 0 123456))))))) =
     Inr (truncate_ms (call_now (Call Info ''m'' ''Python'' [] (noon 0 123456))))"
    by (elim conjE)
  then show ?thesis using v by (simp only: call_now.simps t simp_thms)
qed

text \<open>
  Claim C7 as stated fails: two clock values that differ in the microseconds, within the
  same millisecond, are stored as the same timestamp, so the stored value does not have
  microsecond resolution.
\<close>

theorem timestamp_resolution_counterexample:
  "noon 0 123456 \<noteq> noon 0 123999 \<and>
   map timestamp (local_queue (snd (info quiet_env empty_world ''m'' ''Python'' [] (noon 0 123456))))
     = [''2024-02-29 12:00:00.123''] \<and>
   map timestamp (local_queue (snd (info quiet_env empty_world ''m'' ''Python'' [] (noon 0 123999))))
     = [''2024-02-29 12:00:00.123'']"
proof -
  have "noon 0 123456 \<noteq> noon 0 123999" by (simp add: noon_def)
  moreover have "now_timestamp (noon 0 123456) = ''2024-02-29 12:00:00.123''"
    by (simp add: timestamp_eval)
  moreover have "now_timestamp (noon 0 123999) = ''2024-02-29 12:00:00.123''"
    by (simp add: timestamp_eval)
  ultimately show ?thesis
    by (simp add: info_queue empty_world_def init_world_def append_bounded_def mk_event_def)
qed


section \<open>Queries on the queue\<close>

lemmas upper_eval = upper_def upper_char_def lower_letters_def upper_letters_def

lemma level_event_of:
  "level (event_of c) \<in> {''TRACE'', ''DEBUG'', ''INFO'', ''WARN'', ''ERROR'', ''CRITICAL''}"
proof (cases c)
  case (Call m msg cn fn now)
  then show ?thesis by (cases m) (simp_all add: mk_event_def upper_eval)
qed

lemma upper_level_event_of: "upper (level (event_of c)) = level (event_of c)"
  using level_event_of [of c] by (auto simp: upper_eval)

lemma filtered_logs_spec:
  assumes "local_queue w = map event_of ks"
  shows "filtered_logs w c l = filter (spec_matches c l) (local_queue w)"
proof -
  have "\<forall>e \<in> set (local_queue w). upper (level e) = level e"
    using assms by (auto simp: upper_level_event_of)
  then have "filter (spec_matches c l) (local_queue w) =
      filter (\<lambda>e. (c = [] \<or> component e = c) \<and> (l = [] \<or> level e = upper l)) (local_queue w)"
    by (intro filter_cong) (auto simp: spec_matches_def)
  then show ?thesis
    by (auto simp: filtered_logs_def Let_def intro: filter_cong)
qed

lemma py_tail_pos: "0 < limit \<Longrightarrow> py_tail xs limit = drop (length xs - nat limit) xs"
proof -
  assume "0 < limit"
  then have "nat (max (- limit + int (length xs)) 0) = length xs - nat limit"
    by arith
  with \<open>0 < limit\<close> show ?thesis by (simp add: py_tail_def Let_def)
qed

lemma py_tail_zero: "py_tail xs 0 = xs"
  by (simp add: py_tail_def)

lemma py_tail_neg: "limit < 0 \<Longrightarrow> py_tail xs limit = drop (nat (- limit)) xs"
proof -
  assume "limit < 0"
  then have "drop (nat (min (- limit) (int (length xs)))) xs = drop (nat (- limit)) xs"
    by (cases "- limit \<le> int (length xs)") (simp_all add: min_def)
  with \<open>limit < 0\<close> show ?thesis by (simp add: py_tail_def Let_def)
qed

text \<open>
  Claim C2.  Let the queue hold events made by ingestion calls (every queue is of this
  kind, see \<open>record_all_keeps_events\<close>), let the level filter be ASCII text, and let
  \<open>limit\<close> be positive.  Then \<open>get_local_logs\<close> returns the last \<open>limit\<close>
  events, in the order of the queue, of those whose component equals the component
  filter (when one is given) and whose level equals the level filter up to the case of
  the letters (when one is given).  When no event passes, the result is the empty list;
  the function has no way to fail.
\<close>

theorem get_local_logs_filter_tail:
  "local_queue w = map event_of ks \<Longrightarrow> ascii_text l \<Longrightarrow> 0 < limit \<Longrightarrow>
     get_local_logs w c l limit = spec_query (local_queue w) c l limit \<and>
     (filter (spec_matches c l) (local_queue w) = [] \<longrightarrow> get_local_logs w c l limit = [])"
  by (simp add: get_local_logs_def Let_def filtered_logs_spec py_tail_pos spec_query_def spec_last_def)

text \<open>
  Claim C9.  With \<open>limit = 0\<close> the slice \<^verbatim>\<open>filtered_logs[-0:]\<close> is the whole
  filtered list, and with a negative limit \<open>n\<close> it is the filtered list without its
  first \<open>|n|\<close> events.
\<close>

theorem get_local_logs_nonpositive_limit:
  "get_local_logs w c l 0 = filtered_logs w c l \<and>
   (n < 0 \<longrightarrow> get_local_logs w c l n = drop (nat (- n)) (filtered_logs w c l))"
  by (simp add: get_local_logs_def Let_def py_tail_zero py_tail_neg)


lemma three_world_queue: "local_queue three_world = map event_of three_calls"
  unfolding three_world_def empty_world_def
  by (simp only: record_all_queue) (simp add: three_calls_def)

lemma three_world_events:
  "local_queue three_world =
     [mk_event ''info'' ''one'' ''A'' [] (noon 0 0), mk_event ''warn'' ''two'' ''A'' [] (noon 0 1000),
      mk_event ''error'' ''three'' ''B'' [] (noon 2 500000)]"
  by (simp add: three_world_queue three_calls_def)

lemma spec_matches_mk_event:
  "spec_matches c l (mk_event lv msg cn fn now) =
     ((c = [] \<or> cn = c) \<and> (l = [] \<or> upper (upper lv) = upper l))"
  by (simp add: spec_matches_def mk_event_def)

lemma message_mk_event: "message (mk_event lv msg cn fn now) = msg"
  by (simp add: mk_event_def)

lemmas query_eval = three_world_events spec_query_def spec_last_def spec_matches_mk_event
  message_mk_event upper_eval

theorem get_local_logs_filter_tail_witness:
  "local_queue three_world = map event_of three_calls \<and> ascii_text ''warn'' \<and> ascii_text [] \<and>
   (0::int) < 1 \<and>
   map message (get_local_logs three_world ''A'' ''warn'' 1) = [''two''] \<and>
   map message (get_local_logs three_world ''A'' [] 1) = [''two''] \<and>
   map message (get_local_logs three_world ''A'' [] 5) = [''one'', ''two''] \<and>
   get_local_logs three_world ''C'' [] 5 = []"
proof -
  have pos: "(0::int) < 1" "(0::int) < 5" by simp_all
  have a: "ascii_text ''warn''" "ascii_text []" by (simp_all add: ascii_text_def)
  note q = three_world_queue
  from get_local_logs_filter_tail [OF q a(1) pos(1), of "''A''"]
  have "get_local_logs three_world ''A'' ''warn'' 1 = spec_query (local_queue three_world) ''A'' ''warn'' 1"
    by (elim conjE)
  then have 1: "map message (get_local_logs three_world ''A'' ''warn'' 1) = [''two'']"
    by (simp add: query_eval)
  from get_local_logs_filter_tail [OF q a(2) pos(1), of "''A''"]
  have "get_local_logs three_world ''A'' [] 1 = spec_query (local_queue three_world) ''A'' [] 1"
    by (elim conjE)
  then have 2: "map message (get_local_logs three_world ''A'' [] 1) = [''two'']"
    by (simp add: query_eval)
  from get_local_logs_filter_tail [OF q a(2) pos(2), of "''A''"]
  have "get_local_logs three_world ''A'' [] 5 = spec_query (local_queue three_world) ''A'' [] 5"
    by (elim conjE)
  then have 3: "map message (get_local_logs three_world ''A'' [] 5) = [''one'', ''two'']"
    by (simp add: query_eval)
  from get_local_logs_filter_tail [OF q a(2) pos(2), of "''C''"]
  have "get_local_logs three_world ''C'' [] 5 = spec_query (local_queue three_world) ''C'' [] 5"
    by (elim conjE)
  then have 4: "get_local_logs three_world ''C'' [] 5 = []"
    by (simp add: query_eval)
  from q a 1 2 3 4 show ?thesis by simp
qed

lemma filtered_logs_all: "filtered_logs w [] [] = local_queue w"
  by (simp add: filtered_logs_def)

theorem get_local_logs_nonpositive_limit_witness:
  "(-1::int) < 0 \<and>
   map message (get_local_logs three_world [] [] 0) = [''one'', ''two'', ''three''] \<and>
   map message (get_local_logs three_world [] [] (-1)) = [''two'', ''three'']"
proof -
  have neg: "(-1::int) < 0" by simp
  from get_local_logs_nonpositive_limit [of three_world "[]" "[]" "-1"] neg
  have "get_local_logs three_world [] [] 0 = local_queue three_world"
    and "get_local_logs three_world [] [] (-1) = drop 1 (local_queue three_world)"
    by (simp_all add: filtered_logs_all)
  then show ?thesis
    by (simp add: three_world_events message_mk_event)
qed


section \<open>Statistics\<close>

lemma sum_update_count:
  "sum_list (map snd (AList.update k (Suc (case map_of al k of None \<Rightarrow> 0 | Some c \<Rightarrow> c)) al)) =
     Suc (sum_list (map snd al))"
  by (induction al) auto

lemma sum_count_by:
  "sum_list (map snd (count_by key logs counts)) = sum_list (map snd counts) + length logs"
  by (induction logs arbitrary: counts) (simp_all add: sum_update_count)

lemma strptime_event_of:
  "valid_datetime (call_now k) \<Longrightarrow>
     strptime (timestamp (event_of k)) = Inr (truncate_ms (call_now k))"
  by (simp add: timestamp_event_of strptime_now_timestamp)

lemma time_range_events:
  assumes "\<forall>k \<in> set ks. valid_datetime (call_now k)"
  shows "time_range (map event_of ks) =
     Inr (if length ks < 2 then 0
          else total_seconds (truncate_ms (call_now (last ks))) (truncate_ms (call_now (hd ks))))"
proof (cases "length ks < 2")
  case True
  then show ?thesis by (simp add: time_range_def)
next
  case False
  then have ne: "ks \<noteq> []" by auto
  then have "hd ks \<in> set ks" and "last ks \<in> set ks" by simp_all
  with assms have "valid_datetime (call_now (hd ks))" and "valid_datetime (call_now (last ks))"
    by blast+
  with False ne show ?thesis
    by (simp add: time_range_def hd_map last_map strptime_event_of)
qed

lemma get_log_statistics_events:
  assumes "local_queue w = map event_of ks" and "\<forall>k \<in> set ks. valid_datetime (call_now k)"
  shows "get_log_statistics w =
     (if ks = [] then Inr (Total_Only 0)
      else Inr (Full \<lparr>total_messages = length ks,
         level_distribution = count_by level (map event_of ks) [],
         component_distribution = count_by component (map event_of ks) [],
         time_range_seconds =
           (if length ks < 2 then 0
            else total_seconds (truncate_ms (call_now (last ks))) (truncate_ms (call_now (hd ks)))),
         messages_per_second =
           of_nat (length ks) /
           max (if length ks < 2 then 0
                else total_seconds (truncate_ms (call_now (last ks))) (truncate_ms (call_now (hd ks)))) 1\<rparr>))"
  by (simp add: get_log_statistics_def Let_def assms(1) time_range_events [OF assms(2)])

text \<open>
  Claim C3.  Let the queue hold events made by ingestion calls whose clock values are
  those of a clock.  Then \<open>get_log_statistics\<close> returns without raising.  On a
  non-empty queue it returns the dictionary with all keys, in which the counts of
  \<open>level_distribution\<close> add up to \<open>total_messages\<close>, and so do those of
  \<open>component_distribution\<close>; \<open>total_messages\<close> is the length of the queue.  On the
  empty queue it returns the dictionary that has the one key \<open>total_messages\<close>, with
  value 0, and no distribution.
\<close>

theorem statistics_consistent:
  "local_queue w = map event_of ks \<Longrightarrow> \<forall>k \<in> set ks. valid_datetime (call_now k) \<Longrightarrow>
     (\<exists>st. get_log_statistics w = Inr st \<and>
        (case st of
           Total_Only n \<Rightarrow> ks = [] \<and> n = 0
         | Full s \<Rightarrow>
             ks \<noteq> [] \<and> total_messages s = length ks \<and>
             sum_list (map snd (level_distribution s)) = total_messages s \<and>
             total_messages s = sum_list (map snd (component_distribution s)))) \<and>
     (ks = [] \<longrightarrow> get_log_statistics w = Inr (Total_Only 0))"
  by (simp add: get_log_statistics_events sum_count_by)

text \<open>
  Claim C6.  On a non-empty queue of such events, \<open>get_log_statistics\<close> returns
  \<open>messages_per_second = total_messages / max time_range_seconds 1\<close>, where
  \<open>time_range_seconds\<close> is 0 for a single event and otherwise the seconds from the
  stored timestamp of the first event of the queue to that of the last one (the clock
  values of their calls, to the millisecond).  Seconds are exact rationals here, where
  Python computes with floats.
\<close>

theorem messages_per_second_formula:
  "local_queue w = map event_of ks \<Longrightarrow> ks \<noteq> [] \<Longrightarrow>
   \<forall>k \<in> set ks. valid_datetime (call_now k) \<Longrightarrow>
     \<exists>s oldest newest.
       get_log_statistics w = Inr (Full s) \<and>
       total_messages s = length (local_queue w) \<and>
       strptime (timestamp (hd (local_queue w))) = Inr oldest \<and>
       oldest = truncate_ms (call_now (hd ks)) \<and>
       strptime (timestamp (last (local_queue w))) = Inr newest \<and>
       newest = truncate_ms (call_now (last ks)) \<and>
       time_range_seconds s =
         (if length (local_queue w) < 2 then 0 else total_seconds newest oldest) \<and>
       messages_per_second s = of_nat (total_messages s) / max (time_range_seconds s) 1"
proof -
  assume q: "local_queue w = map event_of ks" and ne: "ks \<noteq> []"
    and v: "\<forall>k \<in> set ks. valid_datetime (call_now k)"
  from ne have "hd ks \<in> set ks" and "last ks \<in> set ks" by simp_all
  with v have "valid_datetime (call_now (hd ks))" and "valid_datetime (call_now (last ks))"
    by blast+
  then have "strptime (timestamp (hd (local_queue w))) = Inr (truncate_ms (call_now (hd ks)))"
    and "strptime (timestamp (last (local_queue w))) = Inr (truncate_ms (call_now (last ks)))"
    using ne by (simp_all add: q hd_map last_map strptime_event_of)
  with ne show ?thesis
    by (simp add: get_log_statistics_events [OF q v] q)
qed

lemma valid_three_calls: "\<forall>k \<in> set three_calls. valid_datetime (call_now k)"
  by (simp add: three_calls_def valid_noon)

lemma three_calls_nonempty: "three_calls \<noteq> []"
  by (simp add: three_calls_def)

theorem statistics_consistent_witness:
  "local_queue three_world = map event_of three_calls \<and>
   valid_datetime (noon 0 0) \<and> valid_datetime (noon 0 1000) \<and> valid_datetime (noon 2 500000) \<and>
   (\<exists>s. get_log_statistics three_world = Inr (Full s) \<and> total_messages s = 3 \<and>
      sum_list (map snd (level_distribution s)) = 3 \<and>
      sum_list (map snd (component_distribution s)) = 3) \<and>
   get_log_statistics empty_world = Inr (Total_Only 0)"
proof -
  from statistics_consistent [OF three_world_queue valid_three_calls]
  obtain st where st: "get_log_statistics three_world = Inr st"
    and c: "case st of
           Total_Only n \<Rightarrow> three_calls = [] \<and> n = 0
         | Full s \<Rightarrow>
             three_calls \<noteq> [] \<and> total_messages s = length three_calls \<and>
             sum_list (map snd (level_distribution s)) = total_messages s \<and>
             total_messages s = sum_list (map snd (component_distribution s))"
    by blast
  from c three_calls_nonempty obtain s where "st = Full s"
    by (cases st) simp_all
  with st c have "get_log_statistics three_world = Inr (Full s) \<and> total_messages s = 3 \<and>
      sum_list (map snd (level_distribution s)) = 3 \<and>
      sum_list (map snd (component_distribution s)) = 3"
    by (simp add: three_calls_def)
  moreover have "local_queue empty_world = map event_of []"
    by (simp add: empty_world_def init_world_def)
  from statistics_consistent [OF this] have "get_log_statistics empty_world = Inr (Total_Only 0)"
    by simp
  ultimately show ?thesis using three_world_queue by (simp add: valid_noon)
qed

lemma total_seconds_example:
  "total_seconds (truncate_ms (noon 2 500000)) (truncate_ms (noon 0 0)) = 5 / 2"
  by (simp add: total_seconds_def total_us_def toordinal_def truncate_ms_def noon_def)

theorem messages_per_second_formula_witness:
  "local_queue three_world = map event_of three_calls \<and> three_calls \<noteq> [] \<and>
   valid_datetime (noon 0 0) \<and> valid_datetime (noon 0 1000) \<and> valid_datetime (noon 2 500000) \<and>
   (\<exists>s. get_log_statistics three_world = Inr (Full s) \<and> total_messages s = 3 \<and>
      time_range_seconds s = 5 / 2 \<and> messages_per_second s = 6 / 5)"
proof -
  from messages_per_second_formula [OF three_world_queue three_calls_nonempty valid_three_calls]
  obtain s oldest newest where "get_log_statistics three_world = Inr (Full s)"
    and "total_messages s = length (local_queue three_world)"
    and "time_range_seconds s =
         (if length (local_queue three_world) < 2 then 0 else total_seconds newest oldest)"
    and "messages_per_second s = of_nat (total_messages s) / max (time_range_seconds s) 1"
    and "oldest = truncate_ms (call_now (hd three_calls))"
    and "newest = truncate_ms (call_now (last three_calls))"
    by blast
  note f = this
  have n: "total_messages s = 3"
    using f(2) by (simp add: three_world_events)
  have tr: "time_range_seconds s = 5 / 2"
    using f(3,5,6) by (simp add: three_world_events three_calls_def total_seconds_example)
  have "messages_per_second s = of_nat 3 / max (5 / 2) 1"
    using f(4) by (simp only: n tr)
  also have "\<dots> = 6 / 5" by simp
  finally have "messages_per_second s = 6 / 5" .
  with f(1) n tr have "get_log_statistics three_world = Inr (Full s) \<and> total_messages s = 3 \<and>
      time_range_seconds s = 5 / 2 \<and> messages_per_second s = 6 / 5"
    by simp
  with three_world_queue three_calls_nonempty show ?thesis by (simp add: valid_noon)
qed


section \<open>Exceptions of the ingestion calls\<close>

lemma fst_except_print:
  assumes "\<And>e. console en (f e) = None"
  shows "fst (except_exception r (\<lambda>e w. py_print en w (f e))) = Inr ()"
proof (cases r)
  case (Pair res w')
  then show ?thesis
    by (cases res) (simp_all add: except_exception_def py_print_def assms)
qed

lemma log_with_component_returns:
  assumes "\<And>e. console en (''Error in Python logging: '' @ str_exn e) = None"
  shows "fst (log_with_component en w lvl msg cn fn now) = Inr ()"
  unfolding log_with_component_def Let_def
  by (rule fst_except_print) (rule assms)

lemma ingest_returns_when_report_prints:
  assumes "\<And>e. console en (''Error in Python logging: '' @ str_exn e) = None"
  shows "fst (ingest en w c) = Inr ()"
proof (cases c)
  case (Call m msg cn fn now)
  then show ?thesis
    by (cases m)
      (simp_all only: ingest.simps trace_def debug_def info_def warn_def error_def critical_def
        log_with_component_returns [OF assms])
qed

text \<open>
  Claim C4 says that no ingestion call ever raises.  The handler of
  \<^verbatim>\<open>_log_with_component\<close> reports the exception it caught with a \<^verbatim>\<open>print\<close> of
  its own, outside any \<^verbatim>\<open>try\<close>.  With a closed standard output the first
  \<^verbatim>\<open>print\<close> raises \<^verbatim>\<open>ValueError\<close>, the handler catches it, the handler's
  \<^verbatim>\<open>print\<close> raises again, and \<open>info\<close> passes that exception to its caller.  (By
  \<open>ingest_returns_when_report_prints\<close> a call returns whenever the report can be
  printed.)
\<close>

theorem info_raises_on_closed_stdout:
  "fst (info closed_stdout_env empty_world ''x'' ''Python'' [] (noon 0 0)) =
     Inl (Exn ''I/O operation on closed file'')"
  by (simp add: info_def log_with_component_def Let_def output_to_python_logging_def
      except_exception_def py_print_def closed_stdout_env_def quiet_env_def upper_eval)

section \<open>The monitoring loop\<close>

lemma loop_handler_ended: "fst (loop_handler en e) = [] \<and> snd (snd (loop_handler en e)) \<noteq> Running"
  by (simp add: loop_handler_def Let_def split: option.split)

lemma delivered_parts:
  "fst (delivered msgs r) = msgs # fst r \<and> snd (snd (delivered msgs r)) = snd (snd r)"
  by (cases r) (simp add: delivered_def)

lemma monitoring_loop_raising_is_last:
  "k < length (fst (monitoring_loop en (Some f) i t sched)) \<Longrightarrow>
   f (fst (monitoring_loop en (Some f) i t sched) ! k) \<noteq> None \<Longrightarrow>
     Suc k = length (fst (monitoring_loop en (Some f) i t sched)) \<and>
     snd (snd (monitoring_loop en (Some f) i t sched)) \<noteq> Running"
proof (induction en "Some f" i t sched arbitrary: k rule: monitoring_loop.induct)
  case (1 en i t)
  then show ?case by simp
next
  case (2 en i t now q rest)
  show ?case
  proof (cases "now - t \<ge> i")
    case False
    with 2 show ?thesis by simp
  next
    case due: True
    show ?thesis
    proof (cases "select_new (fromtimestamp en t) q")
      case (Inl e)
      with due 2(4) show ?thesis by (simp add: loop_handler_ended)
    next
      case (Inr new)
      show ?thesis
      proof (cases "new = []")
        case True
        with due Inr 2(1)[of new k] 2(4,5) show ?thesis by simp
      next
        case ne: False
        show ?thesis
        proof (cases "f new")
          case (Some e)
          with due Inr ne 2(4) show ?thesis
            by (simp add: delivered_parts loop_handler_ended)
        next
          case None
          from due Inr ne None have eq: "monitoring_loop en (Some f) i t ((now, q) # rest) =
              delivered new (monitoring_loop en (Some f) i now rest)"
            by simp
          show ?thesis
          proof (cases k)
            case 0
            with 2(5) eq None show ?thesis by (simp add: delivered_parts)
          next
            case (Suc k')
            with 2(4,5) eq have "k' < length (fst (monitoring_loop en (Some f) i now rest))"
              and "f (fst (monitoring_loop en (Some f) i now rest) ! k') \<noteq> None"
              by (simp_all add: delivered_parts)
            moreover from ne have c: "(if new \<noteq> [] then Some f else None) = Some f" by simp
            ultimately have "Suc k' = length (fst (monitoring_loop en (Some f) i now rest)) \<and>
                snd (snd (monitoring_loop en (Some f) i now rest)) \<noteq> Running"
              using 2(2) [OF due Inr c None] by blast
            with Suc eq show ?thesis
              by (simp add: delivered_parts)
          qed
        qed
      qed
    qed
  qed
qed

lemma monitoring_loop_ended_stays:
  "snd (snd (monitoring_loop en cb i t sched)) \<noteq> Running \<Longrightarrow>
     monitoring_loop en cb i t (sched @ later) = monitoring_loop en cb i t sched"
proof (induction en cb i t sched rule: monitoring_loop.induct)
  case (1 en cb i t)
  then show ?case by simp
next
  case (2 en cb i t now q rest)
  then show ?case
    by (auto simp: delivered_parts split: if_splits sum.splits option.splits)
qed


text \<open>
  Claim C10.  Run the loop of a monitoring thread for any number of iterations.  If the
  callback raised on one of its calls, that call is the last one the loop made and the
  loop has ended (by \<^verbatim>\<open>break\<close>, or by the exception of the handler's own
  \<^verbatim>\<open>print\<close>): however many iterations more the thread is given, it calls the
  callback no further and prints nothing more.  The call of
  \<open>enable_real_time_monitoring\<close> that started the thread returns what it returns
  for any callback, so nothing of the exception reaches its caller.
\<close>

theorem callback_exception_ends_monitoring:
  "monitoring_loop en (Some f) i t sched = (calls, out, st) \<Longrightarrow>
   k < length calls \<Longrightarrow> f (calls ! k) \<noteq> None \<Longrightarrow>
     Suc k = length calls \<and> st \<noteq> Running \<and>
     monitoring_loop en (Some f) i t (sched @ later) = (calls, out, st) \<and>
     fst (enable_real_time_monitoring en w (Some f) i) =
       fst (enable_real_time_monitoring en w None i)"
proof -
  assume r: "monitoring_loop en (Some f) i t sched = (calls, out, st)"
    and k: "k < length calls" and e: "f (calls ! k) \<noteq> None"
  from monitoring_loop_raising_is_last [of k en f i t sched] r k e
  have 1: "Suc k = length calls \<and> st \<noteq> Running" by simp
  with monitoring_loop_ended_stays [of en "Some f" i t sched later] r
  have 2: "monitoring_loop en (Some f) i t (sched @ later) = (calls, out, st)" by simp
  have 3: "fst (enable_real_time_monitoring en w (Some f) i) =
       fst (enable_real_time_monitoring en w None i)"
    by (simp add: enable_real_time_monitoring_def py_print_def split: option.split)
  from 1 2 3 show ?thesis by simp
qed

lemma select_new_events:
  "\<forall>k \<in> set ks. valid_datetime (call_now k) \<Longrightarrow>
     select_new t (map event_of ks) =
       Inr (map event_of (filter (\<lambda>k. dt_greater (truncate_ms (call_now k)) t) ks))"
  by (induction ks) (simp_all add: strptime_event_of)

lemma select_new_three:
  "select_new (fromtimestamp quiet_env t) (local_queue three_world) = Inr (local_queue three_world)"
proof -
  have "filter (\<lambda>k. dt_greater (truncate_ms (call_now k)) (fromtimestamp quiet_env t)) three_calls =
      three_calls"
    by (simp add: three_calls_def dt_greater_def dt_key_def truncate_ms_def noon_def quiet_env_def)
  then show ?thesis
    by (simp add: three_world_queue select_new_events [OF valid_three_calls])
qed

lemma three_world_nonempty: "local_queue three_world \<noteq> []"
  by (simp add: three_world_events)

theorem callback_exception_ends_monitoring_witness:
  "monitoring_loop quiet_env (Some (\<lambda>msgs. Some (Exn ''boom''))) 1 0
      [(1, local_queue three_world), (2, local_queue three_world)] =
     ([local_queue three_world], [''Error in monitoring loop: boom''], Broke) \<and>
   (0::nat) < length [local_queue three_world] \<and>
   (\<lambda>msgs::event list. Some (Exn ''boom'')) ([local_queue three_world] ! 0) \<noteq> None \<and>
   monitoring_loop quiet_env (Some (\<lambda>msgs. Some (Exn ''boom''))) 1 0
      ([(1, local_queue three_world), (2, local_queue three_world)] @
       [(3, local_queue three_world)]) =
     ([local_queue three_world], [''Error in monitoring loop: boom''], Broke)"
proof -
  have c: "console quiet_env s = None" for s
    by (simp add: quiet_env_def)
  have h1: "monitoring_loop quiet_env (Some (\<lambda>msgs. Some (Exn ''boom''))) 1 0
      [(1, local_queue three_world), (2, local_queue three_world)] =
     ([local_queue three_world], [''Error in monitoring loop: boom''], Broke)"
    by (simp add: select_new_three three_world_nonempty loop_handler_def delivered_def c)
  have h2: "(0::nat) < length [local_queue three_world]" by simp
  have h3: "(\<lambda>msgs::event list. Some (Exn ''boom'')) ([local_queue three_world] ! 0) \<noteq> None"
    by simp
  from callback_exception_ends_monitoring [OF h1 h2 h3,
      where later = "[(3, local_queue three_world)]" and w = empty_world]
  have "monitoring_loop quiet_env (Some (\<lambda>msgs. Some (Exn ''boom''))) 1 0
      ([(1, local_queue three_world), (2, local_queue three_world)] @
       [(3, local_queue three_world)]) =
     ([local_queue three_world], [''Error in monitoring loop: boom''], Broke)"
    by (elim conjE)
  with h1 h2 h3 show ?thesis by blast
qed


section \<open>Export to a file\<close>

lemma and_then_Inr: "and_then (Inr u, w) k = k w"
  by (simp add: and_then_def)




























section \<open>Starting monitoring threads\<close>



















end
